theory Spec2Isabelle
  imports Main "HOL-Library.Word" "HOL-Library.Sublist"
begin

section \<open>Python values and the operations the processor applies to them\<close>

text \<open>
  The Gmail client hands \<^verbatim>\<open>main.py\<close> parsed JSON: \<^verbatim>\<open>Dict[str, Any]\<close> values built from
  \<^verbatim>\<open>None\<close>, booleans, numbers, strings, lists and dictionaries. A dictionary is an
  association list read with \<open>map_of\<close>. Numbers are integers here: a float behaves like an
  integer under every operation below (it has no \<^verbatim>\<open>.get\<close>, cannot be iterated, and is
  falsy exactly when zero). A Python \<^verbatim>\<open>str\<close> is a \<open>string\<close>, one \<open>char\<close> per character.
\<close>

datatype json =
    JNull
  | JBool bool
  | JNum int
  | JStr string
  | JList "json list"
  | JDict "(string \<times> json) list"

text \<open>The exceptions (all subclasses of \<^verbatim>\<open>Exception\<close>) that the code or a collaborator raises.\<close>

datatype exn =
    HttpError
  | AttributeError
  | TypeError
  | KeyError
  | OtherException string

type_synonym bytes = "8 word list"

text \<open>Python truthiness, as used by \<^verbatim>\<open>if x\<close>, \<^verbatim>\<open>not x\<close> and \<^verbatim>\<open>x and y\<close>.\<close>

fun truthy :: "json \<Rightarrow> bool" where
  "truthy JNull = False"
| "truthy (JBool b) = b"
| "truthy (JNum n) = (n \<noteq> 0)"
| "truthy (JStr s) = (s \<noteq> [])"
| "truthy (JList xs) = (xs \<noteq> [])"
| "truthy (JDict kvs) = (kvs \<noteq> [])"

text \<open>\<^verbatim>\<open>x.get(k, d)\<close>: only a dictionary has the method.\<close>

fun py_get :: "json \<Rightarrow> string \<Rightarrow> json \<Rightarrow> exn + json" where
  "py_get (JDict kvs) k d = Inr (case map_of kvs k of None \<Rightarrow> d | Some v \<Rightarrow> v)"
| "py_get _ k d = Inl AttributeError"

text \<open>\<^verbatim>\<open>x[k]\<close> with a string key: a missing key raises, and nothing but a dictionary can be
  subscripted by a string.\<close>

fun subscript :: "json \<Rightarrow> string \<Rightarrow> exn + json" where
  "subscript (JDict kvs) k = (case map_of kvs k of None \<Rightarrow> Inl KeyError | Some v \<Rightarrow> Inr v)"
| "subscript _ k = Inl TypeError"

text \<open>\<^verbatim>\<open>x in target_mimes\<close> for a list of strings: list membership compares with \<^verbatim>\<open>==\<close>, and
  only a string equals a string.\<close>

fun in_mimes :: "json \<Rightarrow> string list \<Rightarrow> bool" where
  "in_mimes (JStr s) target_mimes = (s \<in> set target_mimes)"
| "in_mimes _ target_mimes = False"

text \<open>The value stored under \<^verbatim>\<open>'parts'\<close>, when \<^verbatim>\<open>'parts' in part\<close> holds.\<close>

fun subparts :: "json \<Rightarrow> json option" where
  "subparts (JDict kvs) = map_of kvs ''parts''"
| "subparts _ = None"

lemma size_map_of:
  "map_of kvs k = Some v \<Longrightarrow> size v < Suc (size_list (size_prod (\<lambda>_. 0) size) kvs)"
  by (induction kvs) (auto split: if_splits)

lemma size_subparts [termination_simp]: "subparts p = Some s \<Longrightarrow> size s < size p"
  by (cases p) (auto dest: size_map_of)

section \<open>The part tree walker\<close>

text \<open>
  The test of line 64,
  \<^verbatim>\<open>part.get('mimeType') in target_mimes and part.get('body', {}).get('attachmentId')\<close>:
  \<^verbatim>\<open>and\<close> evaluates its right operand only when the left one holds.
\<close>

definition part_matches :: "json \<Rightarrow> string list \<Rightarrow> exn + bool" where
  "part_matches part target_mimes =
     (case py_get part ''mimeType'' JNull of
        Inl e \<Rightarrow> Inl e
      | Inr mt \<Rightarrow>
          if in_mimes mt target_mimes then
            (case py_get part ''body'' (JDict []) of
               Inl e \<Rightarrow> Inl e
             | Inr body \<Rightarrow>
                 (case py_get body ''attachmentId'' JNull of
                    Inl e \<Rightarrow> Inl e
                  | Inr att_id \<Rightarrow> Inr (truthy att_id)))
          else Inr False)"

text \<open>
  \<^verbatim>\<open>find_mime_parts\<close>, lines 55 to 72. \<open>find_loop\<close> is the \<^verbatim>\<open>for part in parts\<close> loop, with
  \<^verbatim>\<open>found_parts\<close> as its accumulator. Iterating a non-empty string or dictionary yields
  strings, and the first \<^verbatim>\<open>part.get\<close> on a string raises \<^verbatim>\<open>AttributeError\<close>; a true boolean
  or a non-zero number cannot be iterated at all (\<^verbatim>\<open>TypeError\<close>).
\<close>

function find_mime_parts :: "json \<Rightarrow> string list \<Rightarrow> exn + json list"
  and find_loop :: "json list \<Rightarrow> string list \<Rightarrow> json list \<Rightarrow> exn + json list" where
  "find_mime_parts parts target_mimes =
     (if \<not> truthy parts then Inr []
      else (case parts of
              JList xs \<Rightarrow> find_loop xs target_mimes []
            | JStr s \<Rightarrow> Inl AttributeError
            | JDict kvs \<Rightarrow> Inl AttributeError
            | _ \<Rightarrow> Inl TypeError))"
| "find_loop [] target_mimes found_parts = Inr found_parts"
| "find_loop (part # rest) target_mimes found_parts =
     (case part_matches part target_mimes of
        Inl e \<Rightarrow> Inl e
      | Inr hit \<Rightarrow>
          (case subparts part of
             None \<Rightarrow>
               find_loop rest target_mimes (if hit then found_parts @ [part] else found_parts)
           | Some sub \<Rightarrow>
               (case find_mime_parts sub target_mimes of
                  Inl e \<Rightarrow> Inl e
                | Inr nested \<Rightarrow>
                    find_loop rest target_mimes
                      ((if hit then found_parts @ [part] else found_parts) @ nested))))"
  by pat_completeness auto
termination
  by (relation "measure (\<lambda>a. case a of
         Inl (parts, _) \<Rightarrow> size parts
       | Inr (xs, _, _) \<Rightarrow> size_list size xs)")
     (auto dest: size_subparts)

declare find_mime_parts.simps [simp del]




definition media_type :: "json \<Rightarrow> json" where
  "media_type p =
     (case p of
        JDict kvs \<Rightarrow> (case map_of kvs ''mimeType'' of Some v \<Rightarrow> v | None \<Rightarrow> JNull)
      | _ \<Rightarrow> JNull)"

definition attachment_ref :: "json \<Rightarrow> json" where
  "attachment_ref p =
     (case p of
        JDict kvs \<Rightarrow>
          (case map_of kvs ''body'' of
             Some (JDict b) \<Rightarrow> (case map_of b ''attachmentId'' of Some a \<Rightarrow> a | None \<Rightarrow> JNull)
           | _ \<Rightarrow> JNull)
      | _ \<Rightarrow> JNull)"






section \<open>Collaborators, records and the event trace\<close>

text \<open>
  An output record, as assembled in lines 188 to 198. Header values, the message identifier
  and the file name are whatever JSON values the mail service returned.
\<close>

record out_record =
  messageId :: json
  subject :: json
  date :: json
  attachmentName :: json
  gmailQueryUsed :: string
  targetMimes :: "string list"
  attachmentContentText :: string

text \<open>
  Everything the loop of \<^verbatim>\<open>main\<close> does to the outside world, in the order it does it: the
  log calls (by source line) and the call of \<^verbatim>\<open>Actor.push_data\<close>.
\<close>

datatype event =
    LogProcessing nat nat json  \<comment> \<open>line 136: count, number of messages, message id\<close>
  | LogFoundAttachment json json  \<comment> \<open>line 162: file name, MIME type\<close>
  | LogFetchFailed json exn  \<comment> \<open>line 52: attachment id, error\<close>
  | LogExtracted nat  \<comment> \<open>line 171: number of characters\<close>
  | LogExtractFailed exn  \<comment> \<open>line 173\<close>
  | LogNotConverted json  \<comment> \<open>line 183: MIME type\<close>
  | PushData out_record  \<comment> \<open>line 199\<close>
  | LogPushed json  \<comment> \<open>line 200: message id\<close>
  | LogSkipping json  \<comment> \<open>line 202: message id\<close>
  | LogUnexpected json exn  \<comment> \<open>line 205: message id, error\<close>

text \<open>
  The collaborators and library functions \<^verbatim>\<open>main.py\<close> calls, each a function of its
  arguments that returns a value or raises: the Gmail message and attachment calls (the
  user id is the constant \<^verbatim>\<open>'me'\<close>), \<^verbatim>\<open>base64.urlsafe_b64decode\<close> after \<^verbatim>\<open>encode('UTF-8')\<close>,
  pdfminer's \<^verbatim>\<open>extract_text_to_fp\<close> (its output buffer as the result), \<^verbatim>\<open>Actor.push_data\<close>
  (\<open>None\<close> when it returns), and Python's \<^verbatim>\<open>str()\<close> on a value that is not a string.
\<close>

record env =
  messages_get :: "json \<Rightarrow> exn + json"
  attachments_get :: "json \<Rightarrow> json \<Rightarrow> exn + json"
  urlsafe_b64decode :: "string \<Rightarrow> exn + bytes"
  extract_text_to_fp :: "bytes \<Rightarrow> exn + string"
  push_data :: "out_record \<Rightarrow> exn option"
  py_str :: "json \<Rightarrow> string"

text \<open>Sequencing of steps that may raise: the first exception ends the sequence.\<close>

fun try_bind :: "exn + 'a \<Rightarrow> ('a \<Rightarrow> exn + 'b) \<Rightarrow> exn + 'b" where
  "try_bind (Inl e) f = Inl e"
| "try_bind (Inr x) f = f x"

section \<open>Attachment fetcher and text extractor\<close>

text \<open>The body of the \<^verbatim>\<open>try\<close> of \<^verbatim>\<open>get_attachment_data\<close>, lines 43 to 50; when \<^verbatim>\<open>data\<close> is
  falsy control falls through to \<^verbatim>\<open>return None\<close>. Only a string has \<^verbatim>\<open>encode\<close>.\<close>

definition attachment_try :: "env \<Rightarrow> json \<Rightarrow> json \<Rightarrow> exn + bytes option" where
  "attachment_try env msg_id att_id =
     try_bind (attachments_get env msg_id att_id) (\<lambda>att.
     try_bind (py_get att ''data'' JNull) (\<lambda>data.
       if truthy data then
         (case data of
            JStr s \<Rightarrow> try_bind (urlsafe_b64decode env s) (\<lambda>b. Inr (Some b))
          | _ \<Rightarrow> Inl AttributeError)
       else Inr None))"

text \<open>\<^verbatim>\<open>get_attachment_data\<close>, lines 40 to 53: \<^verbatim>\<open>except HttpError\<close> logs and returns \<^verbatim>\<open>None\<close>;
  any other exception leaves the function.\<close>

definition get_attachment_data :: "env \<Rightarrow> json \<Rightarrow> json \<Rightarrow> event list \<times> (exn + bytes option)" where
  "get_attachment_data env msg_id att_id =
     (case attachment_try env msg_id att_id of
        Inl e \<Rightarrow> if e = HttpError then ([LogFetchFailed att_id e], Inr None) else ([], Inl e)
      | Inr r \<Rightarrow> ([], Inr r))"

text \<open>\<^verbatim>\<open>str.strip()\<close>: the white space of Python among the characters below 256.\<close>

definition is_space :: "char \<Rightarrow> bool" where
  "is_space c = (let n = (of_char c :: nat) in
     (9 \<le> n \<and> n \<le> 13) \<or> (28 \<le> n \<and> n \<le> 32) \<or> n = 133 \<or> n = 160)"

definition py_strip :: "string \<Rightarrow> string" where
  "py_strip s = rev (dropWhile is_space (rev (dropWhile is_space s)))"

text \<open>\<^verbatim>\<open>extract_pdf_text\<close>, lines 30 to 37.\<close>

definition extract_pdf_text :: "env \<Rightarrow> bytes \<Rightarrow> exn + string" where
  "extract_pdf_text env pdf_bytes =
     try_bind (extract_text_to_fp env pdf_bytes) (\<lambda>output_string. Inr (py_strip output_string))"


section \<open>The message processor and the pipeline driver\<close>

text \<open>Iteration (\<^verbatim>\<open>for h in x\<close>): a list yields its elements, a string its characters, a
  dictionary its keys; nothing else can be iterated.\<close>

fun py_iter :: "json \<Rightarrow> exn + json list" where
  "py_iter (JList xs) = Inr xs"
| "py_iter (JStr s) = Inr (map (\<lambda>c. JStr [c]) s)"
| "py_iter (JDict kvs) = Inr (map JStr (remdups (map fst kvs)))"
| "py_iter _ = Inl TypeError"

text \<open>A dictionary key must be hashable: lists and dictionaries are not.\<close>

fun hashable :: "json \<Rightarrow> bool" where
  "hashable (JList xs) = False"
| "hashable (JDict kvs) = False"
| "hashable _ = True"

text \<open>The comprehension of line 145, \<^verbatim>\<open>{h['name']: h['value'] for h in ...}\<close>, as the list of
  its items in insertion order; a later item with the same key overrides an earlier one.\<close>

fun header_items :: "json list \<Rightarrow> exn + (json \<times> json) list" where
  "header_items [] = Inr []"
| "header_items (h # hs) =
     try_bind (subscript h ''name'') (\<lambda>k.
     try_bind (subscript h ''value'') (\<lambda>v.
       if hashable k then try_bind (header_items hs) (\<lambda>items. Inr ((k, v) # items))
       else Inl TypeError))"

definition headers_get :: "(json \<times> json) list \<Rightarrow> string \<Rightarrow> json \<Rightarrow> json" where
  "headers_get headers k d = (case map_of (rev headers) (JStr k) of None \<Rightarrow> d | Some v \<Rightarrow> v)"

text \<open>Lines 140 to 151: fetch the message, read subject and date, walk the part tree.\<close>

definition discover :: "env \<Rightarrow> json \<Rightarrow> string list \<Rightarrow> exn + json \<times> json \<times> json list" where
  "discover env msg_id target_mimes =
     try_bind (messages_get env msg_id) (\<lambda>msg.
     try_bind (subscript msg ''payload'') (\<lambda>payload.
     try_bind (subscript payload ''headers'') (\<lambda>header_list.
     try_bind (py_iter header_list) (\<lambda>hs.
     try_bind (header_items hs) (\<lambda>headers.
       let subject = headers_get headers ''Subject'' (JStr ''No Subject'');
           date = headers_get headers ''Date'' (JStr ''No Date'');
           all_parts = (case subparts payload of None \<Rightarrow> JList [payload] | Some ps \<Rightarrow> ps)
       in try_bind (find_mime_parts all_parts target_mimes) (\<lambda>target_attachments.
            Inr (subject, date, target_attachments)))))))"

text \<open>Decimal digits of a length, and the formatting of a value inside an f-string.\<close>

fun show_nat :: "nat \<Rightarrow> string" where
  "show_nat n =
     (if n < 10 then [''0123456789'' ! n]
      else show_nat (n div 10) @ [''0123456789'' ! (n mod 10)])"

declare show_nat.simps [simp del]

definition py_format :: "env \<Rightarrow> json \<Rightarrow> string" where
  "py_format env v = (case v of JStr s \<Rightarrow> s | _ \<Rightarrow> py_str env v)"

definition placeholder :: "env \<Rightarrow> json \<Rightarrow> bytes \<Rightarrow> string" where
  "placeholder env filename attachment_bytes =
     ''Binary content of '' @ py_format env filename @
     '' was not processed to text. Size: '' @ show_nat (length attachment_bytes) @ '' bytes.''"

text \<open>
  Lines 153 to 183. The result is \<^verbatim>\<open>attachment_content_text\<close> (\<open>None\<close> for \<^verbatim>\<open>None\<close>) and
  \<^verbatim>\<open>attachment_filename\<close> (\<open>JNull\<close> for \<^verbatim>\<open>None\<close>), with the events logged on the way; an
  exception keeps the events logged before it.
\<close>

definition chosen_fields :: "json \<Rightarrow> exn + json \<times> json \<times> json" where
  "chosen_fields part =
     try_bind (py_get part ''filename'' (JStr ''untitled_attachment'')) (\<lambda>filename.
     try_bind (subscript part ''body'') (\<lambda>body.
     try_bind (subscript body ''attachmentId'') (\<lambda>att_id.
     try_bind (py_get part ''mimeType'' JNull) (\<lambda>mime.
       Inr (filename, att_id, mime)))))"

definition convert ::
  "env \<Rightarrow> json \<Rightarrow> json \<Rightarrow> bytes option \<Rightarrow> event list \<times> string option \<times> json" where
  "convert env filename mime attachment_bytes =
     (case attachment_bytes of
        None \<Rightarrow> ([], None, JNull)
      | Some b \<Rightarrow>
          if b \<noteq> [] \<and> mime = JStr ''application/pdf'' then
            (case extract_pdf_text env b of
               Inl e \<Rightarrow> ([LogExtractFailed e], None, JNull)
             | Inr text \<Rightarrow> ([LogExtracted (length text)], Some text, filename))
          else if b \<noteq> [] then
            ([LogNotConverted mime], Some (placeholder env filename b), filename)
          else ([], None, JNull))"

definition extract_step ::
  "env \<Rightarrow> json \<Rightarrow> json list \<Rightarrow> event list \<times> (exn + string option \<times> json)" where
  "extract_step env msg_id target_attachments =
     (case target_attachments of
        [] \<Rightarrow> ([], Inr (None, JNull))
      | part # _ \<Rightarrow>
          (case chosen_fields part of
             Inl e \<Rightarrow> ([], Inl e)
           | Inr (filename, att_id, mime) \<Rightarrow>
               (case get_attachment_data env msg_id att_id of
                  (evs, Inl e) \<Rightarrow> (LogFoundAttachment filename mime # evs, Inl e)
                | (evs, Inr attachment_bytes) \<Rightarrow>
                    (case convert env filename mime attachment_bytes of
                       (evs', res) \<Rightarrow> (LogFoundAttachment filename mime # evs @ evs', Inr res)))))"

text \<open>Lines 186 to 202: push a record when the text is truthy, log the skip otherwise.\<close>

definition store ::
  "env \<Rightarrow> json \<Rightarrow> json \<Rightarrow> json \<Rightarrow> string \<Rightarrow> string list \<Rightarrow> string option \<times> json
     \<Rightarrow> event list \<times> exn option" where
  "store env msg_id subj dat gmail_query target_mimes res =
     (case res of
        (Some text, attachment_filename) \<Rightarrow>
          if text \<noteq> [] then
            (let record = \<lparr>messageId = msg_id, subject = subj, date = dat,
                     attachmentName = attachment_filename, gmailQueryUsed = gmail_query,
                     targetMimes = target_mimes, attachmentContentText = text\<rparr>
             in case push_data env record of
                  Some e \<Rightarrow> ([PushData record], Some e)
                | None \<Rightarrow> ([PushData record, LogPushed msg_id], None))
          else ([LogSkipping msg_id], None)
      | (None, attachment_filename) \<Rightarrow> ([LogSkipping msg_id], None))"

text \<open>The body of the \<^verbatim>\<open>try\<close> of lines 138 to 202, with the exception that leaves it, if any.\<close>

definition try_body ::
  "env \<Rightarrow> string list \<Rightarrow> string \<Rightarrow> json \<Rightarrow> event list \<times> exn option" where
  "try_body env target_mimes gmail_query msg_id =
     (case discover env msg_id target_mimes of
        Inl e \<Rightarrow> ([], Some e)
      | Inr (subj, dat, target_attachments) \<Rightarrow>
          (case extract_step env msg_id target_attachments of
             (evs, Inl e) \<Rightarrow> (evs, Some e)
           | (evs, Inr res) \<Rightarrow>
               (case store env msg_id subj dat gmail_query target_mimes res of
                  (evs', r) \<Rightarrow> (evs @ evs', r))))"

text \<open>One iteration after \<^verbatim>\<open>msg_id\<close> is known, lines 136 to 205: \<^verbatim>\<open>except Exception\<close> logs
  the error with the message id and the loop goes on.\<close>

definition process_message ::
  "env \<Rightarrow> string list \<Rightarrow> string \<Rightarrow> nat \<Rightarrow> nat \<Rightarrow> json \<Rightarrow> event list" where
  "process_message env target_mimes gmail_query n_messages msg_count msg_id =
     LogProcessing msg_count n_messages msg_id #
     (case try_body env target_mimes gmail_query msg_id of
        (evs, None) \<Rightarrow> evs
      | (evs, Some e) \<Rightarrow> evs @ [LogUnexpected msg_id e])"

text \<open>
  The loop of lines 134 to 205 over \<^verbatim>\<open>enumerate(messages, 1)\<close>. \<^verbatim>\<open>message['id']\<close> stands before
  the \<^verbatim>\<open>try\<close>: an exception there leaves \<^verbatim>\<open>main\<close>, after the events of the earlier messages.
\<close>

fun process_loop ::
  "env \<Rightarrow> string list \<Rightarrow> string \<Rightarrow> nat \<Rightarrow> nat \<Rightarrow> json list \<Rightarrow> event list \<times> exn option" where
  "process_loop env target_mimes gmail_query n_messages msg_count [] = ([], None)"
| "process_loop env target_mimes gmail_query n_messages msg_count (message # rest) =
     (case subscript message ''id'' of
        Inl e \<Rightarrow> ([], Some e)
      | Inr msg_id \<Rightarrow>
          (case process_loop env target_mimes gmail_query n_messages (Suc msg_count) rest of
             (evs, r) \<Rightarrow>
               (process_message env target_mimes gmail_query n_messages msg_count msg_id @ evs, r)))"

definition process_messages ::
  "env \<Rightarrow> string list \<Rightarrow> string \<Rightarrow> json list \<Rightarrow> event list \<times> exn option" where
  "process_messages env target_mimes gmail_query messages =
     process_loop env target_mimes gmail_query (length messages) 1 messages"

text \<open>The records handed to the sink, in call order.\<close>

fun pushed :: "event list \<Rightarrow> out_record list" where
  "pushed [] = []"
| "pushed (PushData r # evs) = r # pushed evs"
| "pushed (_ # evs) = pushed evs"


text \<open>The records the sink accepted: those whose \<^verbatim>\<open>push_data\<close> call returned.\<close>

definition accepted :: "env \<Rightarrow> event list \<Rightarrow> out_record list" where
  "accepted env evs = filter (\<lambda>r. push_data env r = None) (pushed evs)"

text \<open>The identifier of a candidate message, \<open>JNull\<close> when it has none.\<close>

definition msg_id_of :: "json \<Rightarrow> json" where
  "msg_id_of message = (case subscript message ''id'' of Inr i \<Rightarrow> i | Inl e \<Rightarrow> JNull)"

definition has_id :: "json \<Rightarrow> bool" where
  "has_id message = (case subscript message ''id'' of Inr i \<Rightarrow> True | Inl e \<Rightarrow> False)"

section \<open>Sample messages and collaborators\<close>

definition att_part :: "string \<Rightarrow> string \<Rightarrow> string \<Rightarrow> json" where
  "att_part mime name att_id =
     JDict [(''mimeType'', JStr mime), (''filename'', JStr name),
            (''body'', JDict [(''attachmentId'', JStr att_id)])]"

definition unnamed_part :: "string \<Rightarrow> string \<Rightarrow> json" where
  "unnamed_part mime att_id =
     JDict [(''mimeType'', JStr mime), (''body'', JDict [(''attachmentId'', JStr att_id)])]"

definition inline_part :: json where
  "inline_part = JDict [(''mimeType'', JStr ''application/pdf''), (''body'', JDict [(''size'', JNum 10)])]"

definition multipart :: "json list \<Rightarrow> json" where
  "multipart ps = JDict [(''mimeType'', JStr ''multipart/mixed''), (''parts'', JList ps)]"

definition broken_part :: json where
  "broken_part = JDict [(''mimeType'', JStr ''application/pdf''), (''body'', JNull)]"

definition sample_message :: "json list \<Rightarrow> json" where
  "sample_message ps =
     JDict [(''payload'',
       JDict [(''headers'', JList [JDict [(''name'', JStr ''Subject''), (''value'', JStr ''Rate'')]]),
              (''parts'', JList ps)])]"

definition sample_messages_get :: "json \<Rightarrow> exn + json" where
  "sample_messages_get msg_id =
     (if msg_id = JStr ''m1'' then
        Inr (sample_message
          [multipart [inline_part, att_part ''application/pdf'' ''rate.pdf'' ''a1''],
           att_part ''image/png'' ''logo.png'' ''a2''])
      else if msg_id = JStr ''m2'' then Inr (sample_message [inline_part])
      else if msg_id = JStr ''m3'' then Inr (sample_message [unnamed_part ''image/png'' ''a2''])
      else if msg_id = JStr ''m4'' then
        Inr (sample_message [att_part ''application/pdf'' ''bad.pdf'' ''a3''])
      else if msg_id = JStr ''m5'' then Inr (sample_message [broken_part])
      else if msg_id = JStr ''m6'' then
        Inr (sample_message
          [att_part ''application/pdf'' ''gone.pdf'' ''a4'', att_part ''image/png'' ''logo.png'' ''a2''])
      else if msg_id = JStr ''m7'' then Inr (sample_message [att_part ''image/png'' [] ''a2''])
      else if msg_id = JStr ''m8'' then
        Inr (sample_message [att_part ''application/pdf'' ''blank.pdf'' ''a6''])
      else if msg_id = JStr ''m9'' then
        Inr (sample_message [att_part ''application/pdf'' ''slow.pdf'' ''a5''])
      else Inl HttpError)"

definition sample_attachments_get :: "json \<Rightarrow> json \<Rightarrow> exn + json" where
  "sample_attachments_get msg_id att_id =
     (if att_id = JStr ''a1'' then Inr (JDict [(''data'', JStr ''AQID'')])
      else if att_id = JStr ''a2'' then Inr (JDict [(''data'', JStr ''BAU='')])
      else if att_id = JStr ''a3'' then Inr (JDict [(''data'', JStr ''CQ=='')])
      else if att_id = JStr ''a5'' then Inl (OtherException ''TimeoutError'')
      else if att_id = JStr ''a6'' then Inr (JDict [(''data'', JStr ''Bw=='')])
      else Inl HttpError)"

definition sample_b64decode :: "string \<Rightarrow> exn + bytes" where
  "sample_b64decode s =
     (if s = ''AQID'' then Inr [1, 2, 3]
      else if s = ''BAU='' then Inr [4, 5]
      else if s = ''CQ=='' then Inr [9]
      else if s = ''Bw=='' then Inr [7]
      else Inl (OtherException ''binascii.Error''))"

definition sample_extract :: "bytes \<Rightarrow> exn + string" where
  "sample_extract b =
     (if b = [1, 2, 3] then Inr '' Rate 42 ''
      else if b = [7] then Inr ''  ''
      else Inl (OtherException ''PDFSyntaxError''))"

definition sample_env :: env where
  "sample_env =
     \<lparr>messages_get = sample_messages_get,
      attachments_get = sample_attachments_get,
      urlsafe_b64decode = sample_b64decode,
      extract_text_to_fp = sample_extract,
      push_data = (\<lambda>r. None),
      py_str = (\<lambda>v. ''None'')\<rparr>"

definition sample_mimes :: "string list" where
  "sample_mimes = [''application/pdf'', ''image/png'']"


definition sample_candidates :: "json list" where
  "sample_candidates =
     [JDict [(''id'', JStr ''m1'')], JDict [(''id'', JStr ''m5'')], JDict [(''id'', JStr ''m3'')]]"

section \<open>Properties of the part tree walker\<close>









text \<open>Every part the walker returns passed the test of line 64.\<close>

lemma find_hits:
  "(\<forall>r. find_mime_parts parts allowed = Inr r \<longrightarrow> (\<forall>p\<in>set r. part_matches p allowed = Inr True)) \<and> True"
  "(\<forall>r. find_loop xs allowed found = Inr r \<longrightarrow> (\<forall>p\<in>set found. part_matches p allowed = Inr True)
       \<longrightarrow> (\<forall>p\<in>set r. part_matches p allowed = Inr True)) \<and> True"
proof (induction parts allowed and xs allowed found rule: find_mime_parts_find_loop.induct)
  case (1 parts target_mimes)
  then show ?case
    by (cases parts) (auto simp: find_mime_parts.simps split: if_splits)
next
  case (2 target_mimes found_parts)
  then show ?case by simp
next
  case (3 part rest target_mimes found_parts)
  show ?case
  proof (intro conjI allI impI TrueI)
    fix r
    assume res: "find_loop (part # rest) target_mimes found_parts = Inr r"
      and acc: "\<forall>p\<in>set found_parts. part_matches p target_mimes = Inr True"
    from res obtain hit where pm: "part_matches part target_mimes = Inr hit"
      by (cases "part_matches part target_mimes") auto
    let ?found = "if hit then found_parts @ [part] else found_parts"
    have acc1: "\<forall>p\<in>set ?found. part_matches p target_mimes = Inr True"
      using acc pm by auto
    show "\<forall>p\<in>set r. part_matches p target_mimes = Inr True"
    proof (cases "subparts part")
      case None
      with res pm have "find_loop rest target_mimes ?found = Inr r" by simp
      with 3(1)[OF pm None] acc1 show ?thesis by blast
    next
      case (Some sub)
      with res pm obtain nested where n: "find_mime_parts sub target_mimes = Inr nested"
        by (cases "find_mime_parts sub target_mimes") auto
      with res pm Some have r: "find_loop rest target_mimes (?found @ nested) = Inr r" by simp
      have "\<forall>p\<in>set nested. part_matches p target_mimes = Inr True"
        using 3(2)[OF pm Some] n by blast
      with acc1 have "\<forall>p\<in>set (?found @ nested). part_matches p target_mimes = Inr True"
        by auto
      with 3(3)[OF pm Some n] r show ?thesis by blast
    qed
  qed
qed

lemma part_matches_True:
  assumes "part_matches p allowed = Inr True"
  shows "\<exists>kvs. p = JDict kvs \<and> in_mimes (media_type p) allowed \<and> truthy (attachment_ref p) \<and>
     chosen_fields p =
       Inr (case map_of kvs ''filename'' of None \<Rightarrow> JStr ''untitled_attachment'' | Some v \<Rightarrow> v,
            attachment_ref p, media_type p)"
  using assms
  by (cases p)
     (auto simp: part_matches_def chosen_fields_def media_type_def attachment_ref_def
        split: option.splits json.splits if_splits sum.splits)

lemma try_bind_Inr: "(try_bind m f = Inr y) = (\<exists>x. m = Inr x \<and> f x = Inr y)"
  by (cases m) auto

lemma try_bind_Inl: "(try_bind m f = Inl e) = (m = Inl e \<or> (\<exists>x. m = Inr x \<and> f x = Inl e))"
  by (cases m) auto

lemma discover_hits:
  assumes "discover env msg_id allowed = Inr (subj, dat, atts)" and "p \<in> set atts"
  shows "part_matches p allowed = Inr True"
proof -
  from assms(1) obtain parts where "find_mime_parts parts allowed = Inr atts"
    by (auto simp: discover_def Let_def try_bind_Inr)
  with find_hits(1)[of parts allowed] assms(2) show ?thesis by blast
qed

lemmas sample_defs = att_part_def unnamed_part_def inline_part_def multipart_def
  broken_part_def sample_message_def sample_mimes_def








section \<open>Properties of the message processor\<close>

lemmas sample_env_simps =
  sample_env_def sample_messages_get_def sample_attachments_get_def sample_b64decode_def
  sample_extract_def

lemma sample_fetch:
  "get_attachment_data sample_env i (JStr ''a1'') = ([], Inr (Some [1, 2, 3]))"
  "get_attachment_data sample_env i (JStr ''a2'') = ([], Inr (Some [4, 5]))"
  "get_attachment_data sample_env i (JStr ''a3'') = ([], Inr (Some [9]))"
  "get_attachment_data sample_env i (JStr ''a4'') = ([LogFetchFailed (JStr ''a4'') HttpError], Inr None)"
  "get_attachment_data sample_env i (JStr ''a5'') = ([], Inl (OtherException ''TimeoutError''))"
  "get_attachment_data sample_env i (JStr ''a6'') = ([], Inr (Some [7]))"
  by (simp_all add: get_attachment_data_def attachment_try_def sample_env_simps)

lemma sample_discover:
  "discover sample_env (JStr ''m1'') sample_mimes =
     Inr (JStr ''Rate'', JStr ''No Date'',
          [att_part ''application/pdf'' ''rate.pdf'' ''a1'', att_part ''image/png'' ''logo.png'' ''a2''])"
  "discover sample_env (JStr ''m2'') sample_mimes = Inr (JStr ''Rate'', JStr ''No Date'', [])"
  "discover sample_env (JStr ''m3'') sample_mimes =
     Inr (JStr ''Rate'', JStr ''No Date'', [unnamed_part ''image/png'' ''a2''])"
  "discover sample_env (JStr ''m4'') sample_mimes =
     Inr (JStr ''Rate'', JStr ''No Date'', [att_part ''application/pdf'' ''bad.pdf'' ''a3''])"
  "discover sample_env (JStr ''m5'') sample_mimes = Inl AttributeError"
  "discover sample_env (JStr ''m6'') sample_mimes =
     Inr (JStr ''Rate'', JStr ''No Date'',
          [att_part ''application/pdf'' ''gone.pdf'' ''a4'', att_part ''image/png'' ''logo.png'' ''a2''])"
  "discover sample_env (JStr ''m7'') sample_mimes =
     Inr (JStr ''Rate'', JStr ''No Date'', [att_part ''image/png'' [] ''a2''])"
  "discover sample_env (JStr ''m8'') sample_mimes =
     Inr (JStr ''Rate'', JStr ''No Date'', [att_part ''application/pdf'' ''blank.pdf'' ''a6''])"
  "discover sample_env (JStr ''m9'') sample_mimes =
     Inr (JStr ''Rate'', JStr ''No Date'', [att_part ''application/pdf'' ''slow.pdf'' ''a5''])"
  by (simp_all add: discover_def sample_env_simps sample_defs headers_get_def
        find_mime_parts.simps part_matches_def)

lemma pushed_append: "pushed (xs @ ys) = pushed xs @ pushed ys"
  by (induction xs rule: pushed.induct) auto

lemma pushed_fetch: "pushed (fst (get_attachment_data env i a)) = []"
  by (auto simp: get_attachment_data_def split: sum.splits)

lemma pushed_convert: "pushed (fst (convert env fn m ab)) = []"
  by (auto simp: convert_def split: option.splits sum.splits)

lemma pushed_store:
  "pushed (fst (store env i subj dat q tm res)) =
     (case res of
        (Some text, name) \<Rightarrow>
          if text \<noteq> [] then
            [\<lparr>messageId = i, subject = subj, date = dat, attachmentName = name,
              gmailQueryUsed = q, targetMimes = tm, attachmentContentText = text\<rparr>]
          else []
      | (None, name) \<Rightarrow> [])"
  by (auto simp: store_def Let_def split: option.splits prod.splits)

lemma pushed_extract_step: "pushed (fst (extract_step env i atts)) = []"
proof -
  have a: "\<And>a evs r. get_attachment_data env i a = (evs, r) \<Longrightarrow> pushed evs = []"
    using pushed_fetch by (metis fst_conv)
  have b: "\<And>fn m ab evs r. convert env fn m ab = (evs, r) \<Longrightarrow> pushed evs = []"
    using pushed_convert by (metis fst_conv)
  show ?thesis
    by (auto simp: extract_step_def pushed_append split: list.splits sum.splits prod.splits
          dest: a b)
qed

text \<open>The records of one message, read off the outcome of the extraction step.\<close>

lemma pushed_process_message:
  "pushed (process_message env tm q n c i) =
     (case discover env i tm of
        Inl e \<Rightarrow> []
      | Inr (subj, dat, atts) \<Rightarrow>
          (case snd (extract_step env i atts) of
             Inl e \<Rightarrow> []
           | Inr res \<Rightarrow> pushed (fst (store env i subj dat q tm res))))"
proof -
  have a: "\<And>atts evs r. extract_step env i atts = (evs, r) \<Longrightarrow> pushed evs = []"
    using pushed_extract_step by (metis fst_conv)
  show ?thesis
    by (auto simp: process_message_def try_body_def pushed_append
          split: sum.splits prod.splits option.splits dest: a)
qed

lemma extract_step_first: "extract_step env i (part # rest) = extract_step env i [part]"
  by (simp add: extract_step_def)

lemma extract_step_chosen:
  assumes "chosen_fields part = Inr (fn, a, m)"
  shows "snd (extract_step env i (part # rest)) =
     (case snd (get_attachment_data env i a) of
        Inl e \<Rightarrow> Inl e
      | Inr ab \<Rightarrow> Inr (snd (convert env fn m ab)))"
  using assms by (auto simp: extract_step_def split: sum.splits prod.splits)



lemma convert_name:
  "fst (snd (convert env fn m ab)) = Some text \<Longrightarrow> snd (snd (convert env fn m ab)) = fn"
  by (auto simp: convert_def split: option.splits sum.splits if_splits)

lemma pushed_chosen:
  assumes "discover env i tm = Inr (subj, dat, part # rest)"
    and "chosen_fields part = Inr (fn, a, m)"
  shows "pushed (process_message env tm q n c i) =
     (case snd (get_attachment_data env i a) of
        Inl e \<Rightarrow> []
      | Inr ab \<Rightarrow>
          (case fst (snd (convert env fn m ab)) of
             None \<Rightarrow> []
           | Some text \<Rightarrow>
               if text \<noteq> [] then
                 [\<lparr>messageId = i, subject = subj, date = dat, attachmentName = fn,
                   gmailQueryUsed = q, targetMimes = tm, attachmentContentText = text\<rparr>]
               else []))"
proof (cases "snd (get_attachment_data env i a)")
  case (Inl e)
  with assms show ?thesis
    by (simp add: pushed_process_message extract_step_chosen)
next
  case (Inr ab)
  obtain evs t name where cv: "convert env fn m ab = (evs, t, name)"
    by (cases "convert env fn m ab") auto
  show ?thesis
  proof (cases t)
    case None
    with assms Inr cv show ?thesis
      by (simp add: pushed_process_message extract_step_chosen pushed_store)
  next
    case (Some content)
    with cv convert_name[of env fn m ab content] have "name = fn" by simp
    with assms Inr cv Some show ?thesis
      by (simp add: pushed_process_message extract_step_chosen pushed_store)
  qed
qed

lemma discover_chosen:
  assumes "discover env i tm = Inr (subj, dat, part # rest)"
  shows "\<exists>kvs. part = JDict kvs \<and>
     chosen_fields part =
       Inr (case map_of kvs ''filename'' of None \<Rightarrow> JStr ''untitled_attachment'' | Some v \<Rightarrow> v,
            attachment_ref part, media_type part)"
proof -
  have "part_matches part tm = Inr True"
    using assms by (rule discover_hits) simp
  then show ?thesis
    using part_matches_True by blast
qed

text \<open>
  Claim C3 as stated fails: a message with two qualifying attachments whose first attachment
  cannot be fetched produces no record at all.
\<close>

theorem one_record_counterexample:
  "discover sample_env (JStr ''m6'') sample_mimes =
     Inr (JStr ''Rate'', JStr ''No Date'',
          [att_part ''application/pdf'' ''gone.pdf'' ''a4'',
           att_part ''image/png'' ''logo.png'' ''a2'']) \<and>
   pushed (process_message sample_env sample_mimes ''q'' 1 1 (JStr ''m6'')) = []"
proof -
  have c: "chosen_fields (att_part ''application/pdf'' ''gone.pdf'' ''a4'') =
      Inr (JStr ''gone.pdf'', JStr ''a4'', JStr ''application/pdf'')"
    by (simp add: chosen_fields_def att_part_def)
  show ?thesis
    using pushed_chosen [OF sample_discover(6) c, of "''q''" 1 1]
    by (simp add: sample_discover sample_fetch convert_def)
qed

text \<open>
  Claim C3, amended. A message with two or more qualifying attachments produces at most one
  record: exactly one when the bytes of the first entry are fetched and give a non-empty text
  or placeholder, none otherwise. The record is built from the first entry alone; the other
  entries are never used.
\<close>

theorem first_attachment_only:
  assumes "discover env msg_id tm = Inr (subj, dat, part # other # rest)"
  shows "length (pushed (process_message env tm q n c msg_id)) \<le> 1 \<and>
    (\<exists>filename att_id mime.
       chosen_fields part = Inr (filename, att_id, mime) \<and>
       pushed (process_message env tm q n c msg_id) =
         (case snd (get_attachment_data env msg_id att_id) of
            Inl e \<Rightarrow> []
          | Inr attachment_bytes \<Rightarrow>
              (case fst (snd (convert env filename mime attachment_bytes)) of
                 None \<Rightarrow> []
               | Some text \<Rightarrow>
                   if text \<noteq> [] then
                     [\<lparr>messageId = msg_id, subject = subj, date = dat,
                       attachmentName = filename, gmailQueryUsed = q, targetMimes = tm,
                       attachmentContentText = text\<rparr>]
                   else [])))"
proof -
  from discover_chosen [OF assms] obtain filename att_id mime
    where c: "chosen_fields part = Inr (filename, att_id, mime)" by blast
  note p = pushed_chosen [OF assms c, of q n c]
  have "length (pushed (process_message env tm q n c msg_id)) \<le> 1"
    unfolding p by (simp split: sum.splits option.splits)
  with c p show ?thesis by blast
qed

theorem first_attachment_only_witness:
  "discover sample_env (JStr ''m1'') sample_mimes =
     Inr (JStr ''Rate'', JStr ''No Date'',
          [att_part ''application/pdf'' ''rate.pdf'' ''a1'',
           att_part ''image/png'' ''logo.png'' ''a2'']) \<and>
   pushed (process_message sample_env sample_mimes ''q'' 1 1 (JStr ''m1'')) =
     [\<lparr>messageId = JStr ''m1'', subject = JStr ''Rate'', date = JStr ''No Date'',
       attachmentName = JStr ''rate.pdf'', gmailQueryUsed = ''q'', targetMimes = sample_mimes,
       attachmentContentText = ''Rate 42''\<rparr>]"
proof -
  have c: "chosen_fields (att_part ''application/pdf'' ''rate.pdf'' ''a1'') =
      Inr (JStr ''rate.pdf'', JStr ''a1'', JStr ''application/pdf'')"
    by (simp add: chosen_fields_def att_part_def)
  have cv: "convert sample_env (JStr ''rate.pdf'') (JStr ''application/pdf'') (Some [1, 2, 3]) =
      ([LogExtracted 7], Some ''Rate 42'', JStr ''rate.pdf'')"
    by (simp add: convert_def extract_pdf_text_def sample_env_def sample_extract_def
          py_strip_def is_space_def)
  show ?thesis
    using first_attachment_only [OF sample_discover(1), of "''q''" 1 1] c cv
    by (simp add: sample_discover sample_fetch)
qed

text \<open>
  Claim C4. For every processed message a record is pushed to the sink exactly when the
  extraction step produced a non-empty text or placeholder. No pushed record has an empty
  text, and a message with no qualifying attachment, with a failed attachment fetch, with a
  failed PDF extraction, or with a PDF whose trimmed text is empty pushes nothing.
\<close>

theorem push_iff_text:
  "((pushed (process_message env tm q n c msg_id) \<noteq> []) =
      (\<exists>subj dat atts content name.
         discover env msg_id tm = Inr (subj, dat, atts) \<and>
         snd (extract_step env msg_id atts) = Inr (Some content, name) \<and> content \<noteq> [])) \<and>
   (\<forall>r\<in>set (pushed (process_message env tm q n c msg_id)). attachmentContentText r \<noteq> []) \<and>
   (discover env msg_id tm = Inr (subj, dat, []) \<longrightarrow>
      pushed (process_message env tm q n c msg_id) = []) \<and>
   (discover env msg_id tm = Inr (subj, dat, part # rest) \<and>
    chosen_fields part = Inr (filename, att_id, mime) \<longrightarrow>
      (snd (get_attachment_data env msg_id att_id) = Inr None \<longrightarrow>
         pushed (process_message env tm q n c msg_id) = []) \<and>
      ((\<exists>e. snd (get_attachment_data env msg_id att_id) = Inl e) \<longrightarrow>
         pushed (process_message env tm q n c msg_id) = []) \<and>
      (\<forall>b. snd (get_attachment_data env msg_id att_id) = Inr (Some b) \<and>
           mime = JStr ''application/pdf'' \<longrightarrow>
           ((\<exists>e. extract_text_to_fp env b = Inl e) \<longrightarrow>
              pushed (process_message env tm q n c msg_id) = []) \<and>
           (\<forall>raw. extract_text_to_fp env b = Inr raw \<and> py_strip raw = [] \<longrightarrow>
              pushed (process_message env tm q n c msg_id) = [])))"
proof (intro conjI)
  show "(pushed (process_message env tm q n c msg_id) \<noteq> []) =
      (\<exists>subj dat atts content name.
         discover env msg_id tm = Inr (subj, dat, atts) \<and>
         snd (extract_step env msg_id atts) = Inr (Some content, name) \<and> content \<noteq> [])"
    by (auto simp: pushed_process_message pushed_store split: sum.splits option.splits)
  show "\<forall>r\<in>set (pushed (process_message env tm q n c msg_id)). attachmentContentText r \<noteq> []"
    by (auto simp: pushed_process_message pushed_store split: sum.splits option.splits if_splits)
  show "discover env msg_id tm = Inr (subj, dat, []) \<longrightarrow>
      pushed (process_message env tm q n c msg_id) = []"
    by (simp add: pushed_process_message extract_step_def pushed_store)
  show "discover env msg_id tm = Inr (subj, dat, part # rest) \<and>
    chosen_fields part = Inr (filename, att_id, mime) \<longrightarrow>
      (snd (get_attachment_data env msg_id att_id) = Inr None \<longrightarrow>
         pushed (process_message env tm q n c msg_id) = []) \<and>
      ((\<exists>e. snd (get_attachment_data env msg_id att_id) = Inl e) \<longrightarrow>
         pushed (process_message env tm q n c msg_id) = []) \<and>
      (\<forall>b. snd (get_attachment_data env msg_id att_id) = Inr (Some b) \<and>
           mime = JStr ''application/pdf'' \<longrightarrow>
           ((\<exists>e. extract_text_to_fp env b = Inl e) \<longrightarrow>
              pushed (process_message env tm q n c msg_id) = []) \<and>
           (\<forall>raw. extract_text_to_fp env b = Inr raw \<and> py_strip raw = [] \<longrightarrow>
              pushed (process_message env tm q n c msg_id) = []))"
  proof (intro impI, elim conjE)
    assume d: "discover env msg_id tm = Inr (subj, dat, part # rest)"
      and cf: "chosen_fields part = Inr (filename, att_id, mime)"
    note p = pushed_chosen [OF d cf, of q n c]
    show "(snd (get_attachment_data env msg_id att_id) = Inr None \<longrightarrow>
         pushed (process_message env tm q n c msg_id) = []) \<and>
      ((\<exists>e. snd (get_attachment_data env msg_id att_id) = Inl e) \<longrightarrow>
         pushed (process_message env tm q n c msg_id) = []) \<and>
      (\<forall>b. snd (get_attachment_data env msg_id att_id) = Inr (Some b) \<and>
           mime = JStr ''application/pdf'' \<longrightarrow>
           ((\<exists>e. extract_text_to_fp env b = Inl e) \<longrightarrow>
              pushed (process_message env tm q n c msg_id) = []) \<and>
           (\<forall>raw. extract_text_to_fp env b = Inr raw \<and> py_strip raw = [] \<longrightarrow>
              pushed (process_message env tm q n c msg_id) = []))"
      unfolding p
      by (auto simp: convert_def extract_pdf_text_def)
  qed
qed

lemma sample_chosen:
  "chosen_fields (att_part mime name a) = Inr (JStr name, JStr a, JStr mime)"
  "chosen_fields (unnamed_part mime a) = Inr (JStr ''untitled_attachment'', JStr a, JStr mime)"
  by (simp_all add: chosen_fields_def att_part_def unnamed_part_def)

lemma sample_extract_text:
  "extract_text_to_fp sample_env [1, 2, 3] = Inr '' Rate 42 ''"
  "extract_text_to_fp sample_env [7] = Inr ''  ''"
  "extract_text_to_fp sample_env [9] = Inl (OtherException ''PDFSyntaxError'')"
  by (simp_all add: sample_env_def sample_extract_def)

lemma sample_strip: "py_strip '' Rate 42 '' = ''Rate 42''" "py_strip ''  '' = []"
  by (simp_all add: py_strip_def is_space_def)

text \<open>
  Claim C7 as stated fails: a failure of the attachment call that is not an \<^verbatim>\<open>HttpError\<close>
  (here a timeout of the transport) is neither logged nor turned into \<^verbatim>\<open>None\<close>; it leaves
  \<^verbatim>\<open>get_attachment_data\<close>.
\<close>

theorem get_attachment_data_propagates_counterexample:
  "get_attachment_data sample_env (JStr ''m9'') (JStr ''a5'') =
     ([], Inl (OtherException ''TimeoutError''))"
  by (simp add: get_attachment_data_def attachment_try_def sample_env_def
        sample_attachments_get_def)

text \<open>
  Claim C7, amended. An \<^verbatim>\<open>HttpError\<close> of the attachment call is logged and gives \<^verbatim>\<open>None\<close>; any
  other exception of the call leaves \<^verbatim>\<open>get_attachment_data\<close> unlogged. On success with a non-empty
  encoded payload the result is its URL-safe base64 decoding; with no payload or an empty one
  the result is \<^verbatim>\<open>None\<close>.
\<close>

theorem get_attachment_data_http_error:
  "(attachments_get env msg_id att_id = Inl e \<longrightarrow>
      get_attachment_data env msg_id att_id =
        (if e = HttpError then ([LogFetchFailed att_id e], Inr None) else ([], Inl e))) \<and>
   (attachments_get env msg_id att_id = Inr (JDict kvs) \<and> map_of kvs ''data'' = Some (JStr s) \<and>
    s \<noteq> [] \<and> urlsafe_b64decode env s = Inr b \<longrightarrow>
      get_attachment_data env msg_id att_id = ([], Inr (Some b))) \<and>
   (attachments_get env msg_id att_id = Inr (JDict kvs) \<and>
    (map_of kvs ''data'' = None \<or> map_of kvs ''data'' = Some (JStr [])) \<longrightarrow>
      get_attachment_data env msg_id att_id = ([], Inr None))"
  by (auto simp: get_attachment_data_def attachment_try_def)

theorem get_attachment_data_http_error_witness:
  "attachments_get sample_env (JStr ''m6'') (JStr ''a4'') = Inl HttpError \<and>
   get_attachment_data sample_env (JStr ''m6'') (JStr ''a4'') =
     ([LogFetchFailed (JStr ''a4'') HttpError], Inr None) \<and>
   attachments_get sample_env (JStr ''m1'') (JStr ''a1'') = Inr (JDict [(''data'', JStr ''AQID'')]) \<and>
   urlsafe_b64decode sample_env ''AQID'' = Inr [1, 2, 3] \<and>
   get_attachment_data sample_env (JStr ''m1'') (JStr ''a1'') = ([], Inr (Some [1, 2, 3]))"
proof -
  have a4: "attachments_get sample_env (JStr ''m6'') (JStr ''a4'') = Inl HttpError"
    by (simp add: sample_env_def sample_attachments_get_def)
  have a1: "attachments_get sample_env (JStr ''m1'') (JStr ''a1'') =
      Inr (JDict [(''data'', JStr ''AQID'')])"
    by (simp add: sample_env_def sample_attachments_get_def)
  have dec: "urlsafe_b64decode sample_env ''AQID'' = Inr [1, 2, 3]"
    by (simp add: sample_env_def sample_b64decode_def)
  show ?thesis
    using a4 a1 dec
      get_attachment_data_http_error [of sample_env "JStr ''m6''" "JStr ''a4''" HttpError]
      get_attachment_data_http_error [of sample_env "JStr ''m1''" "JStr ''a1''" _
        "[(''data'', JStr ''AQID'')]" "''AQID''" "[1, 2, 3]"]
    by simp
qed

theorem push_iff_text_witness:
  "pushed (process_message sample_env sample_mimes ''q'' 9 1 (JStr ''m1'')) \<noteq> [] \<and>
   discover sample_env (JStr ''m2'') sample_mimes = Inr (JStr ''Rate'', JStr ''No Date'', []) \<and>
   pushed (process_message sample_env sample_mimes ''q'' 9 2 (JStr ''m2'')) = [] \<and>
   snd (get_attachment_data sample_env (JStr ''m6'') (JStr ''a4'')) = Inr None \<and>
   pushed (process_message sample_env sample_mimes ''q'' 9 3 (JStr ''m6'')) = [] \<and>
   snd (get_attachment_data sample_env (JStr ''m9'') (JStr ''a5'')) =
     Inl (OtherException ''TimeoutError'') \<and>
   pushed (process_message sample_env sample_mimes ''q'' 9 4 (JStr ''m9'')) = [] \<and>
   extract_text_to_fp sample_env [9] = Inl (OtherException ''PDFSyntaxError'') \<and>
   pushed (process_message sample_env sample_mimes ''q'' 9 5 (JStr ''m4'')) = [] \<and>
   py_strip ''  '' = [] \<and>
   pushed (process_message sample_env sample_mimes ''q'' 9 6 (JStr ''m8'')) = []"
proof -
  have x1: "snd (extract_step sample_env (JStr ''m1'')
        [att_part ''application/pdf'' ''rate.pdf'' ''a1'',
         att_part ''image/png'' ''logo.png'' ''a2'']) = Inr (Some ''Rate 42'', JStr ''rate.pdf'')"
    by (simp add: extract_step_chosen [OF sample_chosen(1)] sample_fetch convert_def
          extract_pdf_text_def sample_extract_text sample_strip)
  have ex1: "\<exists>subj dat atts content name.
         discover sample_env (JStr ''m1'') sample_mimes = Inr (subj, dat, atts) \<and>
         snd (extract_step sample_env (JStr ''m1'') atts) = Inr (Some content, name) \<and>
         content \<noteq> []"
    using sample_discover(1) x1 by blast
  have m1: "pushed (process_message sample_env sample_mimes ''q'' 9 1 (JStr ''m1'')) \<noteq> []"
    using push_iff_text [of sample_env sample_mimes "''q''" 9 1 "JStr ''m1''", THEN conjunct1]
      ex1 by (rule iffD2)
  have m2: "pushed (process_message sample_env sample_mimes ''q'' 9 2 (JStr ''m2'')) = []"
    using push_iff_text [of sample_env sample_mimes "''q''" 9 2 "JStr ''m2''"
        "JStr ''Rate''" "JStr ''No Date''", THEN conjunct2, THEN conjunct2, THEN conjunct1]
      sample_discover(2) by (rule mp)
  have f6: "snd (get_attachment_data sample_env (JStr ''m6'') (JStr ''a4'')) = Inr None"
    by (simp add: sample_fetch)
  have m6: "pushed (process_message sample_env sample_mimes ''q'' 9 3 (JStr ''m6'')) = []"
    using push_iff_text [of sample_env sample_mimes "''q''" 9 3 "JStr ''m6''"
        "JStr ''Rate''" "JStr ''No Date''" "att_part ''application/pdf'' ''gone.pdf'' ''a4''"
        "[att_part ''image/png'' ''logo.png'' ''a2'']"
        "JStr ''gone.pdf''" "JStr ''a4''" "JStr ''application/pdf''",
        THEN conjunct2, THEN conjunct2, THEN conjunct2, THEN mp,
        OF conjI [OF sample_discover(6) sample_chosen(1)], THEN conjunct1]
      f6 by (rule mp)
  have f9: "\<exists>e. snd (get_attachment_data sample_env (JStr ''m9'') (JStr ''a5'')) = Inl e"
    by (simp add: sample_fetch)
  have m9: "pushed (process_message sample_env sample_mimes ''q'' 9 4 (JStr ''m9'')) = []"
    using push_iff_text [of sample_env sample_mimes "''q''" 9 4 "JStr ''m9''"
        "JStr ''Rate''" "JStr ''No Date''" "att_part ''application/pdf'' ''slow.pdf'' ''a5''" "[]"
        "JStr ''slow.pdf''" "JStr ''a5''" "JStr ''application/pdf''",
        THEN conjunct2, THEN conjunct2, THEN conjunct2, THEN mp,
        OF conjI [OF sample_discover(9) sample_chosen(1)], THEN conjunct2, THEN conjunct1]
      f9 by (rule mp)
  have f4: "snd (get_attachment_data sample_env (JStr ''m4'') (JStr ''a3'')) = Inr (Some [9]) \<and>
      JStr ''application/pdf'' = JStr ''application/pdf''"
    by (simp add: sample_fetch)
  have e4: "\<exists>e. extract_text_to_fp sample_env [9] = Inl e"
    by (simp add: sample_extract_text)
  have m4: "pushed (process_message sample_env sample_mimes ''q'' 9 5 (JStr ''m4'')) = []"
    using push_iff_text [of sample_env sample_mimes "''q''" 9 5 "JStr ''m4''"
        "JStr ''Rate''" "JStr ''No Date''" "att_part ''application/pdf'' ''bad.pdf'' ''a3''" "[]"
        "JStr ''bad.pdf''" "JStr ''a3''" "JStr ''application/pdf''",
        THEN conjunct2, THEN conjunct2, THEN conjunct2, THEN mp,
        OF conjI [OF sample_discover(4) sample_chosen(1)], THEN conjunct2, THEN conjunct2,
        THEN spec, THEN mp, OF f4, THEN conjunct1]
      e4 by (rule mp)
  have f8: "snd (get_attachment_data sample_env (JStr ''m8'') (JStr ''a6'')) = Inr (Some [7]) \<and>
      JStr ''application/pdf'' = JStr ''application/pdf''"
    by (simp add: sample_fetch)
  have e8: "extract_text_to_fp sample_env [7] = Inr ''  '' \<and> py_strip ''  '' = []"
    by (simp add: sample_extract_text sample_strip)
  have m8: "pushed (process_message sample_env sample_mimes ''q'' 9 6 (JStr ''m8'')) = []"
    using push_iff_text [of sample_env sample_mimes "''q''" 9 6 "JStr ''m8''"
        "JStr ''Rate''" "JStr ''No Date''" "att_part ''application/pdf'' ''blank.pdf'' ''a6''" "[]"
        "JStr ''blank.pdf''" "JStr ''a6''" "JStr ''application/pdf''",
        THEN conjunct2, THEN conjunct2, THEN conjunct2, THEN mp,
        OF conjI [OF sample_discover(8) sample_chosen(1)], THEN conjunct2, THEN conjunct2,
        THEN spec, THEN mp, OF f8, THEN conjunct2, THEN spec]
      e8 by (rule mp)
  show ?thesis
    by (intro conjI m1 m2 m6 m9 m4 m8 f6 sample_discover(2) sample_extract_text(3)
          sample_strip(2)) (simp add: sample_fetch)
qed

lemma pushed_chosen_name:
  assumes "discover env i tm = Inr (subj, dat, part # rest)"
    and "chosen_fields part = Inr (fn, a, m)"
  shows "\<forall>r\<in>set (pushed (process_message env tm q n c i)). attachmentName r = fn"
  unfolding pushed_chosen [OF assms]
  by (auto split: sum.splits option.splits if_splits)

lemma pushed_not_pdf:
  assumes "discover env i tm = Inr (subj, dat, part # rest)"
    and "chosen_fields part = Inr (fn, a, m)"
    and "m \<noteq> JStr ''application/pdf''"
    and "snd (get_attachment_data env i a) = Inr (Some b)"
    and "b \<noteq> []"
  shows "map attachmentContentText (pushed (process_message env tm q n c i)) =
     [placeholder env fn b]"
  using assms(3-5) unfolding pushed_chosen [OF assms(1,2)]
  by (simp add: convert_def placeholder_def)

text \<open>
  Claim C10. When the chosen part has no \<^verbatim>\<open>filename\<close> field, the record's \<^verbatim>\<open>attachmentName\<close> and
  the file name inside the placeholder text are the default \<^verbatim>\<open>untitled_attachment\<close>; a
  \<^verbatim>\<open>filename\<close> that is present and empty is kept as the empty string.
\<close>

theorem default_filename:
  assumes "discover env msg_id tm = Inr (subj, dat, JDict kvs # rest)"
  shows "(map_of kvs ''filename'' = None \<longrightarrow>
      (\<forall>r\<in>set (pushed (process_message env tm q n c msg_id)).
         attachmentName r = JStr ''untitled_attachment'') \<and>
      (\<forall>b. media_type (JDict kvs) \<noteq> JStr ''application/pdf'' \<and>
           snd (get_attachment_data env msg_id (attachment_ref (JDict kvs))) = Inr (Some b) \<and>
           b \<noteq> [] \<longrightarrow>
           map attachmentContentText (pushed (process_message env tm q n c msg_id)) =
             [''Binary content of untitled_attachment was not processed to text. Size: '' @
              show_nat (length b) @ '' bytes.''])) \<and>
    (map_of kvs ''filename'' = Some (JStr []) \<longrightarrow>
      (\<forall>r\<in>set (pushed (process_message env tm q n c msg_id)). attachmentName r = JStr []) \<and>
      (\<forall>b. media_type (JDict kvs) \<noteq> JStr ''application/pdf'' \<and>
           snd (get_attachment_data env msg_id (attachment_ref (JDict kvs))) = Inr (Some b) \<and>
           b \<noteq> [] \<longrightarrow>
           map attachmentContentText (pushed (process_message env tm q n c msg_id)) =
             [''Binary content of  was not processed to text. Size: '' @
              show_nat (length b) @ '' bytes.'']))"
proof -
  let ?fn = "case map_of kvs ''filename'' of None \<Rightarrow> JStr ''untitled_attachment'' | Some v \<Rightarrow> v"
  from discover_chosen [OF assms]
  have cf: "chosen_fields (JDict kvs) =
      Inr (?fn, attachment_ref (JDict kvs), media_type (JDict kvs))"
    by simp
  note nm = pushed_chosen_name [OF assms cf, of q n c]
  have ph: "\<And>b. media_type (JDict kvs) \<noteq> JStr ''application/pdf'' \<Longrightarrow>
        snd (get_attachment_data env msg_id (attachment_ref (JDict kvs))) = Inr (Some b) \<Longrightarrow>
        b \<noteq> [] \<Longrightarrow>
        map attachmentContentText (pushed (process_message env tm q n c msg_id)) =
          [placeholder env ?fn b]"
    by (rule pushed_not_pdf [OF assms cf])
  show ?thesis
  proof (intro conjI impI allI)
    assume none: "map_of kvs ''filename'' = None"
    show "\<forall>r\<in>set (pushed (process_message env tm q n c msg_id)).
        attachmentName r = JStr ''untitled_attachment''"
      using nm none by simp
  next
    fix b
    assume none: "map_of kvs ''filename'' = None"
      and h: "media_type (JDict kvs) \<noteq> JStr ''application/pdf'' \<and>
           snd (get_attachment_data env msg_id (attachment_ref (JDict kvs))) = Inr (Some b) \<and>
           b \<noteq> []"
    from h have "map attachmentContentText (pushed (process_message env tm q n c msg_id)) =
          [placeholder env ?fn b]"
      by (intro ph) simp_all
    with none show "map attachmentContentText (pushed (process_message env tm q n c msg_id)) =
             [''Binary content of untitled_attachment was not processed to text. Size: '' @
              show_nat (length b) @ '' bytes.'']"
      by (simp add: placeholder_def py_format_def)
  next
    assume some: "map_of kvs ''filename'' = Some (JStr [])"
    show "\<forall>r\<in>set (pushed (process_message env tm q n c msg_id)). attachmentName r = JStr []"
      using nm some by simp
  next
    fix b
    assume some: "map_of kvs ''filename'' = Some (JStr [])"
      and h: "media_type (JDict kvs) \<noteq> JStr ''application/pdf'' \<and>
           snd (get_attachment_data env msg_id (attachment_ref (JDict kvs))) = Inr (Some b) \<and>
           b \<noteq> []"
    from h have "map attachmentContentText (pushed (process_message env tm q n c msg_id)) =
          [placeholder env ?fn b]"
      by (intro ph) simp_all
    with some show "map attachmentContentText (pushed (process_message env tm q n c msg_id)) =
             [''Binary content of  was not processed to text. Size: '' @
              show_nat (length b) @ '' bytes.'']"
      by (simp add: placeholder_def py_format_def)
  qed
qed

lemma sample_accessors:
  "media_type (att_part mime name a) = JStr mime"
  "attachment_ref (att_part mime name a) = JStr a"
  "media_type (unnamed_part mime a) = JStr mime"
  "attachment_ref (unnamed_part mime a) = JStr a"
  by (simp_all add: media_type_def attachment_ref_def att_part_def unnamed_part_def)

theorem default_filename_witness:
  "discover sample_env (JStr ''m3'') sample_mimes =
     Inr (JStr ''Rate'', JStr ''No Date'', [unnamed_part ''image/png'' ''a2'']) \<and>
   map attachmentName (pushed (process_message sample_env sample_mimes ''q'' 2 1 (JStr ''m3''))) =
     [JStr ''untitled_attachment''] \<and>
   map attachmentContentText (pushed (process_message sample_env sample_mimes ''q'' 2 1 (JStr ''m3''))) =
     [''Binary content of untitled_attachment was not processed to text. Size: 2 bytes.''] \<and>
   discover sample_env (JStr ''m7'') sample_mimes =
     Inr (JStr ''Rate'', JStr ''No Date'', [att_part ''image/png'' [] ''a2'']) \<and>
   map attachmentName (pushed (process_message sample_env sample_mimes ''q'' 2 2 (JStr ''m7''))) =
     [JStr []] \<and>
   map attachmentContentText (pushed (process_message sample_env sample_mimes ''q'' 2 2 (JStr ''m7''))) =
     [''Binary content of  was not processed to text. Size: 2 bytes.'']"
proof -
  let ?kvs3 = "[(''mimeType'', JStr ''image/png''), (''body'', JDict [(''attachmentId'', JStr ''a2'')])]"
  let ?kvs7 = "[(''mimeType'', JStr ''image/png''), (''filename'', JStr []),
      (''body'', JDict [(''attachmentId'', JStr ''a2'')])]"
  have p3: "unnamed_part ''image/png'' ''a2'' = JDict ?kvs3" by (simp add: unnamed_part_def)
  have p7: "att_part ''image/png'' [] ''a2'' = JDict ?kvs7" by (simp add: att_part_def)
  have d3: "discover sample_env (JStr ''m3'') sample_mimes =
      Inr (JStr ''Rate'', JStr ''No Date'', JDict ?kvs3 # [])"
    using sample_discover(3) by (simp only: p3)
  have d7: "discover sample_env (JStr ''m7'') sample_mimes =
      Inr (JStr ''Rate'', JStr ''No Date'', JDict ?kvs7 # [])"
    using sample_discover(7) by (simp only: p7)
  have n3: "map_of ?kvs3 ''filename'' = None" by simp
  have n7: "map_of ?kvs7 ''filename'' = Some (JStr [])" by simp
  have h3: "media_type (JDict ?kvs3) \<noteq> JStr ''application/pdf'' \<and>
      snd (get_attachment_data sample_env (JStr ''m3'') (attachment_ref (JDict ?kvs3))) =
        Inr (Some [4, 5]) \<and> [4, 5 :: 8 word] \<noteq> []"
    using sample_accessors(3,4) [of "''image/png''" "''a2''"]
    by (simp add: p3 sample_fetch)
  have h7: "media_type (JDict ?kvs7) \<noteq> JStr ''application/pdf'' \<and>
      snd (get_attachment_data sample_env (JStr ''m7'') (attachment_ref (JDict ?kvs7))) =
        Inr (Some [4, 5]) \<and> [4, 5 :: 8 word] \<noteq> []"
    using sample_accessors(1,2) [of "''image/png''" "[]" "''a2''"]
    by (simp add: p7 sample_fetch)
  have s: "show_nat (length [4, 5 :: 8 word]) = ''2''"
    by (simp add: show_nat.simps)
  note t3 = default_filename [OF d3, of "''q''" 2 1, THEN conjunct1, THEN mp, OF n3]
  note t7 = default_filename [OF d7, of "''q''" 2 2, THEN conjunct2, THEN mp, OF n7]
  have c3: "map attachmentContentText
      (pushed (process_message sample_env sample_mimes ''q'' 2 1 (JStr ''m3''))) =
     [''Binary content of untitled_attachment was not processed to text. Size: 2 bytes.'']"
    using t3 [THEN conjunct2, THEN spec, THEN mp, OF h3] s by simp
  have c7: "map attachmentContentText
      (pushed (process_message sample_env sample_mimes ''q'' 2 2 (JStr ''m7''))) =
     [''Binary content of  was not processed to text. Size: 2 bytes.'']"
    using t7 [THEN conjunct2, THEN spec, THEN mp, OF h7] s by simp
  have a3: "map attachmentName
      (pushed (process_message sample_env sample_mimes ''q'' 2 1 (JStr ''m3''))) =
     [JStr ''untitled_attachment'']"
    using t3 [THEN conjunct1] c3
    by (cases "pushed (process_message sample_env sample_mimes ''q'' 2 1 (JStr ''m3''))") auto
  have a7: "map attachmentName
      (pushed (process_message sample_env sample_mimes ''q'' 2 2 (JStr ''m7''))) = [JStr []]"
    using t7 [THEN conjunct1] c7
    by (cases "pushed (process_message sample_env sample_mimes ''q'' 2 2 (JStr ''m7''))") auto
  show ?thesis
    by (intro conjI sample_discover(3) sample_discover(7) a3 c3 a7 c7)
qed

section \<open>Properties of the pipeline driver\<close>

lemma has_id_subscript: "has_id m \<Longrightarrow> subscript m ''id'' = Inr (msg_id_of m)"
  by (auto simp: has_id_def msg_id_of_def split: sum.splits)

lemma no_id_subscript: "\<not> has_id m \<Longrightarrow> \<exists>e. subscript m ''id'' = Inl e"
  by (auto simp: has_id_def split: sum.splits)

lemma loop_Cons:
  "has_id m \<Longrightarrow>
     process_loop env tm q n c (m # ms) =
       (process_message env tm q n c (msg_id_of m) @ fst (process_loop env tm q n (Suc c) ms),
        snd (process_loop env tm q n (Suc c) ms))"
  by (simp add: has_id_subscript split: prod.splits)

lemma loop_trace:
  "fst (process_loop env tm q n c ms) =
     concat (map (\<lambda>(k, m). process_message env tm q n k (msg_id_of m))
       (zip [c..<c + length ms] (takeWhile has_id ms)))"
proof (induction ms arbitrary: c)
  case Nil
  then show ?case by simp
next
  case (Cons m ms)
  show ?case
  proof (cases "has_id m")
    case True
    have "[c..<c + length (m # ms)] = c # [Suc c..<Suc c + length ms]"
      using upt_conv_Cons [of c "Suc c + length ms"] by (simp del: upt_Suc)
    with True Cons [of "Suc c"] show ?thesis
      by (simp add: loop_Cons del: process_loop.simps upt_Suc)
  next
    case False
    then obtain e where "subscript m ''id'' = Inl e" using no_id_subscript by blast
    with False show ?thesis by simp
  qed
qed

lemma loop_completes: "list_all has_id ms \<Longrightarrow> snd (process_loop env tm q n c ms) = None"
  by (induction ms arbitrary: c) (simp_all add: loop_Cons del: process_loop.simps(2))

lemma loop_append:
  "list_all has_id xs \<Longrightarrow>
     process_loop env tm q n c (xs @ ys) =
       (fst (process_loop env tm q n c xs) @ fst (process_loop env tm q n (c + length xs) ys),
        snd (process_loop env tm q n (c + length xs) ys))"
  by (induction xs arbitrary: c) (simp_all add: loop_Cons del: process_loop.simps(2))

lemma pushed_message_cases:
  "pushed (process_message env tm q n c i) = [] \<or>
   (\<exists>r. pushed (process_message env tm q n c i) = [r] \<and> messageId r = i)"
  by (auto simp: pushed_process_message pushed_store split: sum.splits option.splits)

lemma loop_no_id: "\<not> has_id m \<Longrightarrow> fst (process_loop env tm q n c (m # ms)) = []"
  using no_id_subscript [of m] by auto

lemma loop_pushed_subseq:
  "subseq (map messageId (pushed (fst (process_loop env tm q n c ms)))) (map msg_id_of ms)"
proof (induction ms arbitrary: c)
  case Nil
  then show ?case by simp
next
  case (Cons m ms)
  show ?case
  proof (cases "has_id m")
    case False
    then show ?thesis by (simp add: loop_no_id del: process_loop.simps)
  next
    case True
    then have step: "pushed (fst (process_loop env tm q n c (m # ms))) =
        pushed (process_message env tm q n c (msg_id_of m)) @
        pushed (fst (process_loop env tm q n (Suc c) ms))"
      by (simp add: loop_Cons pushed_append del: process_loop.simps)
    from pushed_message_cases [of env tm q n c "msg_id_of m"] show ?thesis
    proof
      assume "pushed (process_message env tm q n c (msg_id_of m)) = []"
      with step Cons [of "Suc c"] show ?thesis
        by (simp add: list_emb_Cons del: process_loop.simps)
    next
      assume "\<exists>r. pushed (process_message env tm q n c (msg_id_of m)) = [r] \<and>
          messageId r = msg_id_of m"
      then obtain r where "pushed (process_message env tm q n c (msg_id_of m)) = [r]"
        and "messageId r = msg_id_of m" by blast
      with step Cons [of "Suc c"] show ?thesis
        by (simp del: process_loop.simps)
    qed
  qed
qed

text \<open>
  Claim C9. A run processes the candidate messages one after the other in list order: its
  trace is the concatenation, in that order, of the traces of the single messages, so every
  event of one message precedes every event of the next, and the records reach the sink in
  the order of the candidate list.
\<close>

theorem sequential_order:
  "fst (process_messages env tm q messages) =
     concat (map (\<lambda>(k, m). process_message env tm q (length messages) k (msg_id_of m))
       (zip [1..<Suc (length messages)] (takeWhile has_id messages))) \<and>
   subseq (map messageId (pushed (fst (process_messages env tm q messages))))
     (map msg_id_of messages) \<and>
   (list_all has_id messages \<longrightarrow> snd (process_messages env tm q messages) = None)"
proof (intro conjI impI)
  show "fst (process_messages env tm q messages) =
     concat (map (\<lambda>(k, m). process_message env tm q (length messages) k (msg_id_of m))
       (zip [1..<Suc (length messages)] (takeWhile has_id messages)))"
    unfolding process_messages_def
    using loop_trace [of env tm q "length messages" 1 messages]
    by (simp only: plus_1_eq_Suc)
  show "subseq (map messageId (pushed (fst (process_messages env tm q messages))))
     (map msg_id_of messages)"
    unfolding process_messages_def by (rule loop_pushed_subseq)
  show "snd (process_messages env tm q messages) = None" if "list_all has_id messages"
    unfolding process_messages_def using that by (rule loop_completes)
qed

lemma sample_candidates_ids: "list_all has_id sample_candidates"
  by (simp add: sample_candidates_def has_id_def)

theorem sequential_order_witness:
  "list_all has_id sample_candidates \<and>
   snd (process_messages sample_env sample_mimes ''q'' sample_candidates) = None"
  using sample_candidates_ids
    sequential_order [of sample_env sample_mimes "''q''" sample_candidates,
      THEN conjunct2, THEN conjunct2, THEN mp, OF sample_candidates_ids]
  by (rule conjI)

lemma accepted_append: "accepted env (xs @ ys) = accepted env xs @ accepted env ys"
  by (simp add: accepted_def pushed_append)

lemma try_body_raised:
  assumes "try_body env tm q i = (evs, Some e)"
  shows "accepted env evs = []"
proof (cases "discover env i tm")
  case (Inl e')
  with assms show ?thesis by (simp add: try_body_def accepted_def)
next
  case (Inr d)
  obtain subj dat atts where d: "d = (subj, dat, atts)" by (cases d)
  obtain evs1 r1 where x: "extract_step env i atts = (evs1, r1)"
    by (cases "extract_step env i atts")
  have p1: "pushed evs1 = []" using pushed_extract_step [of env i atts] x by simp
  show ?thesis
  proof (cases r1)
    case (Inl e')
    with assms Inr d x p1 show ?thesis by (simp add: try_body_def accepted_def)
  next
    case res: (Inr res)
    obtain evs2 r2 where st: "store env i subj dat q tm res = (evs2, r2)"
      by (cases "store env i subj dat q tm res")
    with assms Inr d x res have evs: "evs = evs1 @ evs2" and r2: "r2 = Some e"
      by (simp_all add: try_body_def)
    from st r2 have "accepted env evs2 = []"
      by (auto simp: store_def Let_def accepted_def split: option.splits if_splits prod.splits)
    with evs p1 show ?thesis by (simp add: accepted_append) (simp add: accepted_def)
  qed
qed

text \<open>
  Claim C5. An exception raised while a message is processed is caught at the boundary of
  that message and logged with its identifier; the message is dropped, and the events and
  records of all other messages of the run are what they are without the failure.
\<close>

theorem message_isolation:
  assumes "list_all has_id (before @ message # after)"
    and "n = length (before @ message # after)"
    and "try_body env tm q (msg_id_of message) = (evs, Some e)"
  shows "process_messages env tm q (before @ message # after) =
      (fst (process_loop env tm q n 1 before) @
       (LogProcessing (Suc (length before)) n (msg_id_of message) # evs @
          [LogUnexpected (msg_id_of message) e]) @
       fst (process_loop env tm q n (Suc (Suc (length before))) after), None) \<and>
    accepted env (fst (process_messages env tm q (before @ message # after))) =
      accepted env (fst (process_loop env tm q n 1 before)) @
      accepted env (fst (process_loop env tm q n (Suc (Suc (length before))) after))"
proof -
  from assms(1) have b: "list_all has_id before" and m: "has_id message"
    and a: "list_all has_id after" by simp_all
  have pm: "process_message env tm q n (Suc (length before)) (msg_id_of message) =
      LogProcessing (Suc (length before)) n (msg_id_of message) # evs @
        [LogUnexpected (msg_id_of message) e]"
    using assms(3) by (simp add: process_message_def)
  have run: "process_messages env tm q (before @ message # after) =
      (fst (process_loop env tm q n 1 before) @
       process_message env tm q n (Suc (length before)) (msg_id_of message) @
       fst (process_loop env tm q n (Suc (Suc (length before))) after), None)"
    unfolding process_messages_def assms(2) [symmetric]
    using loop_append [OF b, of env tm q n 1 "message # after"]
      loop_Cons [OF m, of env tm q n "Suc (length before)" after]
      loop_completes [OF a, of env tm q n "Suc (Suc (length before))"]
    by (simp del: process_loop.simps)
  have dropped: "accepted env
      (process_message env tm q n (Suc (length before)) (msg_id_of message)) = []"
    unfolding pm using try_body_raised [OF assms(3)]
    by (simp add: accepted_def pushed_append)
  have "accepted env (fst (process_messages env tm q (before @ message # after))) =
      accepted env (fst (process_loop env tm q n 1 before)) @
      accepted env (process_message env tm q n (Suc (length before)) (msg_id_of message)) @
      accepted env (fst (process_loop env tm q n (Suc (Suc (length before))) after))"
    unfolding run by (simp only: fst_conv accepted_append)
  then have acc: "accepted env (fst (process_messages env tm q (before @ message # after))) =
      accepted env (fst (process_loop env tm q n 1 before)) @
      accepted env (fst (process_loop env tm q n (Suc (Suc (length before))) after))"
    by (simp only: dropped append_Nil)
  from run have "process_messages env tm q (before @ message # after) =
      (fst (process_loop env tm q n 1 before) @
       (LogProcessing (Suc (length before)) n (msg_id_of message) # evs @
          [LogUnexpected (msg_id_of message) e]) @
       fst (process_loop env tm q n (Suc (Suc (length before))) after), None)"
    by (simp only: pm)
  with acc show ?thesis by (rule conjI [rotated])
qed

theorem message_isolation_witness:
  "list_all has_id ([JDict [(''id'', JStr ''m1'')]] @ JDict [(''id'', JStr ''m5'')] #
      [JDict [(''id'', JStr ''m3'')]]) \<and>
   try_body sample_env sample_mimes ''q'' (msg_id_of (JDict [(''id'', JStr ''m5'')])) =
     ([], Some AttributeError) \<and>
   process_messages sample_env sample_mimes ''q''
     ([JDict [(''id'', JStr ''m1'')]] @ JDict [(''id'', JStr ''m5'')] #
      [JDict [(''id'', JStr ''m3'')]]) =
     (fst (process_loop sample_env sample_mimes ''q'' 3 1 [JDict [(''id'', JStr ''m1'')]]) @
      [LogProcessing 2 3 (JStr ''m5''), LogUnexpected (JStr ''m5'') AttributeError] @
      fst (process_loop sample_env sample_mimes ''q'' 3 3 [JDict [(''id'', JStr ''m3'')]]), None)"
proof -
  have ids: "list_all has_id ([JDict [(''id'', JStr ''m1'')]] @ JDict [(''id'', JStr ''m5'')] #
      [JDict [(''id'', JStr ''m3'')]])"
    by (simp add: has_id_def)
  have n: "3 = length ([JDict [(''id'', JStr ''m1'')]] @ JDict [(''id'', JStr ''m5'')] #
      [JDict [(''id'', JStr ''m3'')]])"
    by simp
  have i: "msg_id_of (JDict [(''id'', JStr ''m5'')]) = JStr ''m5''"
    by (simp add: msg_id_of_def)
  have tb: "try_body sample_env sample_mimes ''q'' (msg_id_of (JDict [(''id'', JStr ''m5'')])) =
     ([], Some AttributeError)"
    by (simp add: i try_body_def sample_discover)
  have s: "Suc (length [JDict [(''id'', JStr ''m1'')]]) = 2"
    "Suc (Suc (length [JDict [(''id'', JStr ''m1'')]])) = 3"
    by simp_all
  show ?thesis
    using ids tb message_isolation [OF ids n tb, THEN conjunct1]
    unfolding i s by simp
qed

text \<open>
  Claim C8. When the chosen attachment is a PDF and text extraction raises, the error is
  caught on the spot and logged as a warning; the message is logged as skipped, pushes no
  record, and the loop goes on with the remaining messages.
\<close>

theorem pdf_failure_skips:
  assumes "discover env msg_id tm = Inr (subj, dat, part # rest)"
    and "chosen_fields part = Inr (filename, att_id, JStr ''application/pdf'')"
    and "get_attachment_data env msg_id att_id = (evs, Inr (Some b))"
    and "b \<noteq> []"
    and "extract_text_to_fp env b = Inl e"
  shows "process_message env tm q n c msg_id =
      LogProcessing c n msg_id # LogFoundAttachment filename (JStr ''application/pdf'') # evs @
        [LogExtractFailed e, LogSkipping msg_id] \<and>
    pushed (process_message env tm q n c msg_id) = [] \<and>
    (\<forall>message later. subscript message ''id'' = Inr msg_id \<longrightarrow>
       process_loop env tm q n c (message # later) =
         (process_message env tm q n c msg_id @ fst (process_loop env tm q n (Suc c) later),
          snd (process_loop env tm q n (Suc c) later)))"
proof -
  have pm: "process_message env tm q n c msg_id =
      LogProcessing c n msg_id # LogFoundAttachment filename (JStr ''application/pdf'') # evs @
        [LogExtractFailed e, LogSkipping msg_id]"
    using assms
    by (simp add: process_message_def try_body_def extract_step_def convert_def
          extract_pdf_text_def store_def)
  have "pushed evs = []"
    using pushed_fetch [of env msg_id att_id] assms(3) by simp
  then have "pushed (process_message env tm q n c msg_id) = []"
    unfolding pm by (simp add: pushed_append)
  with pm show ?thesis by (simp split: prod.splits)
qed

theorem pdf_failure_skips_witness:
  "discover sample_env (JStr ''m4'') sample_mimes =
     Inr (JStr ''Rate'', JStr ''No Date'', [att_part ''application/pdf'' ''bad.pdf'' ''a3'']) \<and>
   extract_text_to_fp sample_env [9] = Inl (OtherException ''PDFSyntaxError'') \<and>
   process_message sample_env sample_mimes ''q'' 1 1 (JStr ''m4'') =
     [LogProcessing 1 1 (JStr ''m4''),
      LogFoundAttachment (JStr ''bad.pdf'') (JStr ''application/pdf''),
      LogExtractFailed (OtherException ''PDFSyntaxError''), LogSkipping (JStr ''m4'')]"
proof -
  have b: "[9 :: 8 word] \<noteq> []" by simp
  show ?thesis
    using sample_discover(4) sample_extract_text(3)
      pdf_failure_skips [OF sample_discover(4) sample_chosen(1) sample_fetch(3) b
        sample_extract_text(3), of "''q''" 1 1, THEN conjunct1]
    by simp
qed

end
